theory Spec2Isabelle
  imports Complex_Main
begin

section \<open>Data model\<close>

text \<open>
  The solver works on JavaScript numbers (IEEE-754 doubles; \<open>double\<close> in the C copy).
  They are idealised here as \<open>real\<close>: every input is taken to be a finite number and
  arithmetic is exact.  Array indices are natural numbers; the sentinel \<open>-1\<close> that the
  selectors return for "none" is \<open>None\<close> (the Swift copy returns \<open>Int?\<close> as well).
\<close>

definition epsilon :: real where
  "epsilon = 1 / 1000000"

datatype key = Protein | Carbs | Fat | Fiber | Vitamins

definition constraintKeys :: "key list" where
  "constraintKeys = [Protein, Carbs, Fat, Fiber, Vitamins]"

definition numConstraints :: nat where
  "numConstraints = 5"

record food =
  name :: string
  cost :: real
  protein :: real
  carbs :: real
  fat :: real
  fiber :: real
  vitamins :: real

text \<open>\<open>foods[j][key]\<close>: the property of a food object named by a constraint key.\<close>

fun food_get :: "food \<Rightarrow> key \<Rightarrow> real" where
  "food_get f Protein = protein f"
| "food_get f Carbs = carbs f"
| "food_get f Fat = fat f"
| "food_get f Fiber = fiber f"
| "food_get f Vitamins = vitamins f"

text \<open>The \<open>constraints\<close> object of a request: one minimum per constraint key.\<close>

record constraints =
  min_protein :: real
  min_carbs :: real
  min_fat :: real
  min_fiber :: real
  min_vitamins :: real

fun constraints_get :: "constraints \<Rightarrow> key \<Rightarrow> real" where
  "constraints_get c Protein = min_protein c"
| "constraints_get c Carbs = min_carbs c"
| "constraints_get c Fat = min_fat c"
| "constraints_get c Fiber = min_fiber c"
| "constraints_get c Vitamins = min_vitamins c"

section \<open>Tableau (server copy, class \<open>Tableau\<close>)\<close>

record tableau =
  rows :: nat
  cols :: nat
  matrix :: "real list list"
  basis :: "nat list"

text \<open>The constructor: a \<open>rows \<times> cols\<close> matrix of zeros and a basis of zeros.\<close>

definition new_tableau :: "nat \<Rightarrow> nat \<Rightarrow> tableau" where
  "new_tableau r c =
     \<lparr>rows = r, cols = c, matrix = replicate r (replicate c 0), basis = replicate r 0\<rparr>"

text \<open>
  \<open>findPivotColumn\<close>: scan the objective row (the last row) over the columns
  \<open>0 .. cols - 2\<close>, keeping the smallest value strictly below the running minimum,
  which starts at \<open>0\<close>.
\<close>

definition pivotColumn_step :: "real list \<Rightarrow> nat \<Rightarrow> real \<times> nat option \<Rightarrow> real \<times> nat option" where
  "pivotColumn_step objRow j s =
     (case s of (minVal, pivotCol) \<Rightarrow>
        if objRow ! j < minVal then (objRow ! j, Some j) else (minVal, pivotCol))"

definition findPivotColumn :: "tableau \<Rightarrow> nat option" where
  "findPivotColumn t =
     (let objRow = matrix t ! (rows t - 1)
      in snd (fold (pivotColumn_step objRow) [0..<cols t - 1] (0, None)))"

text \<open>
  \<open>findPivotRow\<close>: the ratio test over the constraint rows \<open>0 .. rows - 2\<close>.
  \<open>minRatio\<close> starts at \<open>Infinity\<close>, modelled as \<open>None\<close>: every (finite) ratio is
  below it.
\<close>

definition below :: "real \<Rightarrow> real option \<Rightarrow> bool" where
  "below x minRatio = (case minRatio of None \<Rightarrow> True | Some m \<Rightarrow> x < m)"

definition pivotRow_step ::
  "tableau \<Rightarrow> nat \<Rightarrow> nat \<Rightarrow> real option \<times> nat option \<Rightarrow> real option \<times> nat option" where
  "pivotRow_step t pivotCol i s =
     (case s of (minRatio, pivotRow) \<Rightarrow>
        let elem = matrix t ! i ! pivotCol in
        if elem < - epsilon then
          let rhs = matrix t ! i ! (cols t - 1);
              ratio = - rhs / elem
          in if ratio > 0 \<and> below ratio minRatio then (Some ratio, Some i)
             else (minRatio, pivotRow)
        else (minRatio, pivotRow))"

definition findPivotRow :: "tableau \<Rightarrow> nat \<Rightarrow> nat option" where
  "findPivotRow t pivotCol =
     snd (fold (pivotRow_step t pivotCol) [0..<rows t - 1] (None, None))"

text \<open>
  \<open>pivot\<close>: the pivot row is divided by the pivot element (read once, before the
  loop); every other row \<open>i\<close> then has \<open>factor * (new pivot row)\<close> subtracted, where
  \<open>factor\<close> is the row's entry in the pivot column read before the row is changed.
  Each row depends only on its old self and on the new pivot row, so the in-place
  loops are a map over the row and column indices.
\<close>

definition pivot :: "tableau \<Rightarrow> nat \<Rightarrow> nat \<Rightarrow> tableau" where
  "pivot t pivotRow pivotCol =
     (let pivotElem = matrix t ! pivotRow ! pivotCol;
          newRow = map (\<lambda>j. matrix t ! pivotRow ! j / pivotElem) [0..<cols t];
          m' = map (\<lambda>i. if i \<noteq> pivotRow
                         then (let factor = matrix t ! i ! pivotCol
                               in map (\<lambda>j. matrix t ! i ! j - factor * newRow ! j) [0..<cols t])
                         else newRow) [0..<rows t]
      in t\<lparr>matrix := m', basis := (basis t)[pivotRow := pivotCol]\<rparr>)"

section \<open>The solver (server copy, \<open>simplexSolve\<close>)\<close>

text \<open>
  Construction of the initial tableau.  Row \<open>i\<close> of the constraint part is written
  in the order of the source: the food coefficients, the slack entry, the right-hand
  side; \<open>basis[i]\<close> is set alongside.  The objective row gets the unit costs.
\<close>

definition constraint_row :: "food list \<Rightarrow> constraints \<Rightarrow> nat \<Rightarrow> real list \<Rightarrow> real list" where
  "constraint_row foods cs i row =
     (let numFoods = length foods;
          numVars = numFoods;
          totalCols = numVars + numConstraints + 1;
          k = constraintKeys ! i;
          r1 = fold (\<lambda>j r. r[j := - food_get (foods ! j) k]) [0..<numFoods] row;
          r2 = r1[numVars + i := - 1]
      in r2[totalCols - 1 := - constraints_get cs k])"

definition objective_row :: "food list \<Rightarrow> real list \<Rightarrow> real list" where
  "objective_row foods row = fold (\<lambda>j r. r[j := cost (foods ! j)]) [0..<length foods] row"

definition initial_tableau :: "food list \<Rightarrow> constraints \<Rightarrow> tableau" where
  "initial_tableau foods cs =
     (let numFoods = length foods;
          numVars = numFoods;
          totalCols = numVars + numConstraints + 1;
          totalRows = numConstraints + 1;
          t0 = new_tableau totalRows totalCols;
          t1 = fold (\<lambda>i t. t\<lparr>matrix := (matrix t)[i := constraint_row foods cs i (matrix t ! i)],
                                basis := (basis t)[i := numVars + i]\<rparr>)
                    [0..<numConstraints] t0
      in t1\<lparr>matrix := (matrix t1)[totalRows - 1 := objective_row foods (matrix t1 ! (totalRows - 1))]\<rparr>)"

text \<open>
  The iteration.  The loop state is the tableau, the counter \<open>iteration\<close> and the list
  \<open>iterations\<close> of matrix snapshots.  \<open>break\<close> and the exhausted loop condition both
  leave the loop with the current state; the unbounded case returns the error object
  from inside the loop.
\<close>

datatype error = Unbounded

definition error_message :: "error \<Rightarrow> string" where
  "error_message e = (case e of Unbounded \<Rightarrow> ''Problem is unbounded'')"

definition maxIterations :: nat where
  "maxIterations = 100"

record loop_state =
  ls_tableau :: tableau
  ls_iteration :: nat
  ls_iterations :: "real list list list"

function simplex_loop :: "loop_state \<Rightarrow> error + loop_state" where
  "simplex_loop s =
     (if ls_iteration s < maxIterations then
        (let snaps = ls_iterations s @ [matrix (ls_tableau s)] in
         case findPivotColumn (ls_tableau s) of
           None \<Rightarrow> Inr (s\<lparr>ls_iterations := snaps\<rparr>)
         | Some pivotCol \<Rightarrow>
             (case findPivotRow (ls_tableau s) pivotCol of
                None \<Rightarrow> Inl Unbounded
              | Some pivotRow \<Rightarrow>
                  simplex_loop \<lparr>ls_tableau = pivot (ls_tableau s) pivotRow pivotCol,
                                ls_iteration = ls_iteration s + 1,
                                ls_iterations = snaps\<rparr>))
      else Inr s)"
  by pat_completeness auto
termination
  by (relation "measure (\<lambda>s. maxIterations - ls_iteration s)") auto

text \<open>
  Extraction.  For a food column \<open>j\<close> the rows \<open>0 .. numConstraints - 1\<close> are scanned
  for the first row \<open>i\<close> whose entry is within \<open>epsilon\<close> of \<open>1\<close> and for which no other
  constraint row \<open>k\<close> has \<open>|matrix[k][j]| > epsilon\<close>.
\<close>

definition allZero :: "tableau \<Rightarrow> nat \<Rightarrow> nat \<Rightarrow> bool" where
  "allZero t j i =
     list_all (\<lambda>k. \<not> (k \<noteq> i \<and> \<bar>matrix t ! k ! j\<bar> > epsilon)) [0..<numConstraints]"

definition basicRow :: "tableau \<Rightarrow> nat \<Rightarrow> nat option" where
  "basicRow t j =
     List.find (\<lambda>i. \<bar>matrix t ! i ! j - 1\<bar> < epsilon \<and> allZero t j i) [0..<numConstraints]"

definition extract_amount :: "tableau \<Rightarrow> nat \<Rightarrow> nat \<Rightarrow> real" where
  "extract_amount t totalCols j =
     (case basicRow t j of
        Some i \<Rightarrow> max 0 (matrix t ! i ! (totalCols - 1))
      | None \<Rightarrow> 0)"

definition extract_amounts :: "tableau \<Rightarrow> nat \<Rightarrow> real list" where
  "extract_amounts t numFoods =
     map (extract_amount t (numFoods + numConstraints + 1)) [0..<numFoods]"

text \<open>\<open>amounts.reduce((sum, amt, i) => sum + amt * foods[i].cost, 0)\<close>\<close>

definition total_cost :: "food list \<Rightarrow> real list \<Rightarrow> real" where
  "total_cost foods amts =
     fold (\<lambda>i sum. sum + amts ! i * cost (foods ! i)) [0..<length amts] 0"

record solution =
  amounts :: "real list"
  totalCost :: real
  shadowPrices :: "(key \<times> real) list"
  iterations :: "real list list list"
  feasible :: bool

definition shadow_prices :: "tableau \<Rightarrow> nat \<Rightarrow> (key \<times> real) list" where
  "shadow_prices t numVars =
     map (\<lambda>i. (constraintKeys ! i, \<bar>matrix t ! numConstraints ! (numVars + i)\<bar>))
         [0..<numConstraints]"

definition make_solution :: "food list \<Rightarrow> loop_state \<Rightarrow> solution" where
  "make_solution foods s =
     (let amts = extract_amounts (ls_tableau s) (length foods)
      in \<lparr>amounts = amts,
          totalCost = total_cost foods amts,
          shadowPrices = shadow_prices (ls_tableau s) (length foods),
          iterations = ls_iterations s,
          feasible = True\<rparr>)"

definition start_state :: "food list \<Rightarrow> constraints \<Rightarrow> loop_state" where
  "start_state foods cs =
     \<lparr>ls_tableau = initial_tableau foods cs, ls_iteration = 0, ls_iterations = []\<rparr>"

definition simplexSolve :: "food list \<Rightarrow> constraints \<Rightarrow> error + solution" where
  "simplexSolve foods cs =
     (case simplex_loop (start_state foods cs) of
        Inl e \<Rightarrow> Inl e
      | Inr s \<Rightarrow> Inr (make_solution foods s))"

section \<open>The solver on request values (server copy)\<close>

text \<open>
  A request reaches \<open>simplexSolve\<close> as parsed JSON.  An element of the \<open>foods\<close> array
  is \<open>null\<close> or an object (an element that is a number, a string or a boolean has none of
  the properties and reads like an object without them); a property of a food object is a
  number or missing.  A
  missing property reads as \<open>undefined\<close>, which is \<open>NaN\<close> in every arithmetic operation and
  comparison of the solver, so a tableau entry is a number or \<open>NaN\<close>: \<open>None\<close> below.
  Arithmetic on \<open>NaN\<close> gives \<open>NaN\<close>, every comparison with \<open>NaN\<close> is false, and
  \<open>Math.abs\<close> and \<open>Math.max\<close> return \<open>NaN\<close> for it.  Every division of the solver has a
  divisor that compared below \<open>-epsilon\<close>.  Reading a property of \<open>null\<close> throws.

  The definitions of this section repeat those of the two sections above on such values,
  line by line; on food objects whose properties are all numbers they compute the same
  results (lemma \<open>js_solve_numeric\<close>).
\<close>

type_synonym jsnum = "real option"








record js_tableau =
  js_rows :: nat
  js_cols :: nat
  js_matrix :: "jsnum list list"
  js_basis :: "nat list"










record js_loop_state =
  jl_tableau :: js_tableau
  jl_iteration :: nat
  jl_iterations :: "jsnum list list list"















section \<open>The HTTP handlers (server copy)\<close>








text \<open>
  \<open>POST /api/sensitivity\<close>: the sweep over the price changes \<open>-50, -40, .., 50\<close> for
  every food whose amount exceeds \<open>epsilon\<close>.  \<open>solution.amounts[idx]\<close> beyond the end
  of the array is \<open>undefined\<close>, which is not greater than \<open>epsilon\<close>.
\<close>

record sweep_entry =
  priceChange :: int
  newPrice :: real
  impactOnTotal :: real

record sens_entry =
  sens_food :: string
  currentPrice :: real
  quantity :: real
  analysis :: "sweep_entry list"

function sweep :: "real \<Rightarrow> real \<Rightarrow> int \<Rightarrow> sweep_entry list \<Rightarrow> sweep_entry list" where
  "sweep foodCost amount pct acc =
     (if pct \<le> 50 then
        (let newCost = foodCost * (1 + real_of_int pct / 100);
             impact = amount * (newCost - foodCost)
         in sweep foodCost amount (pct + 10)
              (acc @ [\<lparr>priceChange = pct, newPrice = newCost, impactOnTotal = impact\<rparr>]))
      else acc)"
  by pat_completeness auto
termination
  by (relation "measure (\<lambda>(foodCost, amount, pct, acc). nat (51 - pct))") auto

definition sens_step :: "food list \<Rightarrow> real list \<Rightarrow> nat \<Rightarrow> sens_entry list \<Rightarrow> sens_entry list" where
  "sens_step foods amts idx sensData =
     (if idx < length amts \<and> amts ! idx > epsilon then
        sensData @ [\<lparr>sens_food = name (foods ! idx),
                      currentPrice = cost (foods ! idx),
                      quantity = amts ! idx,
                      analysis = sweep (cost (foods ! idx)) (amts ! idx) (- 50) []\<rparr>]
      else sensData)"

definition sensitivity :: "real list \<Rightarrow> food list \<Rightarrow> sens_entry list" where
  "sensitivity amts foods = fold (sens_step foods amts) [0..<length foods] []"

section \<open>The browser copy (\<open>simplex\<close> in \<open>diet-optimizer.jsx\<close>)\<close>

text \<open>
  The browser copy keeps the tableau as a bare array of rows \<open>tab\<close>.  Its loop has the
  cap \<open>maxIter = 50\<close>, its ratio test looks at the rows whose entry is \<open>< 0\<close>, and it
  leaves the loop with \<open>break\<close> both at the optimum and when no leaving row exists.
\<close>

definition simplex_tab :: "food list \<Rightarrow> constraints \<Rightarrow> real list list" where
  "simplex_tab foods cs =
     map (\<lambda>i. map (\<lambda>f. - food_get f (constraintKeys ! i)) foods
               @ map (\<lambda>j. if i = j then - 1 else 0) [0..<numConstraints]
               @ [- constraints_get cs (constraintKeys ! i)]) [0..<numConstraints]
     @ [map cost foods @ replicate numConstraints 0 @ [0]]"

definition enterCol :: "real list list \<Rightarrow> nat option" where
  "enterCol tab =
     (let objRow = tab ! (length tab - 1)
      in snd (fold (pivotColumn_step objRow) [0..<length objRow - 1] (0, None)))"

definition leaveRow_step ::
  "real list list \<Rightarrow> nat \<Rightarrow> nat \<Rightarrow> real option \<times> nat option \<Rightarrow> real option \<times> nat option" where
  "leaveRow_step tab c i s =
     (case s of (minRatio, leave) \<Rightarrow>
        if tab ! i ! c < 0 then
          (let ratio = - (tab ! i ! (length (tab ! i) - 1)) / (tab ! i ! c)
           in if ratio > 0 \<and> below ratio minRatio then (Some ratio, Some i)
              else (minRatio, leave))
        else (minRatio, leave))"

definition leaveRow :: "real list list \<Rightarrow> nat \<Rightarrow> nat option" where
  "leaveRow tab c = snd (fold (leaveRow_step tab c) [0..<length tab - 1] (None, None))"

definition tab_pivot :: "real list list \<Rightarrow> nat \<Rightarrow> nat \<Rightarrow> real list list" where
  "tab_pivot tab r c =
     (let pivotElem = tab ! r ! c;
          newRow = map (\<lambda>j. tab ! r ! j / pivotElem) [0..<length (tab ! r)]
      in map (\<lambda>i. if i \<noteq> r
                    then (let factor = tab ! i ! c
                          in map (\<lambda>j. tab ! i ! j - factor * newRow ! j) [0..<length (tab ! i)])
                    else newRow) [0..<length tab])"

definition maxIter :: nat where
  "maxIter = 50"

record tab_state =
  ts_tab :: "real list list"
  ts_iter :: nat
  ts_iterations :: "real list list list"

function simplex_iterate :: "tab_state \<Rightarrow> tab_state" where
  "simplex_iterate s =
     (if ts_iter s < maxIter then
        (let snaps = ts_iterations s @ [ts_tab s] in
         case enterCol (ts_tab s) of
           None \<Rightarrow> s\<lparr>ts_iterations := snaps\<rparr>
         | Some c \<Rightarrow>
             (case leaveRow (ts_tab s) c of
                None \<Rightarrow> s\<lparr>ts_iterations := snaps\<rparr>
              | Some r \<Rightarrow>
                  simplex_iterate \<lparr>ts_tab = tab_pivot (ts_tab s) r c,
                                   ts_iter = ts_iter s + 1,
                                   ts_iterations = snaps\<rparr>))
      else s)"
  by pat_completeness auto
termination
  by (relation "measure (\<lambda>s. maxIter - ts_iter s)") auto

definition tab_amount :: "real list list \<Rightarrow> nat \<Rightarrow> real" where
  "tab_amount tab j =
     (let col = map (\<lambda>row. row ! j) tab;
          nonZero = filter (\<lambda>v. \<bar>v\<bar> > 1 / 1000000) col
      in if length nonZero = 1 \<and> \<bar>nonZero ! 0 - 1\<bar> < 1 / 1000000 then
           (case List.find (\<lambda>i. \<bar>col ! i - 1\<bar> < 1 / 1000000) [0..<length col] of
              Some rowIdx \<Rightarrow> max 0 (tab ! rowIdx ! (length (tab ! rowIdx) - 1))
            | None \<Rightarrow> 0)
         else 0)"

record ui_solution =
  ui_amounts :: "real list"
  ui_totalCost :: real

text \<open>The value handed to \<open>setSolution\<close>.\<close>

definition simplex :: "food list \<Rightarrow> constraints \<Rightarrow> ui_solution" where
  "simplex foods cs =
     (let s = simplex_iterate \<lparr>ts_tab = simplex_tab foods cs, ts_iter = 0, ts_iterations = []\<rparr>;
          amts = map (tab_amount (ts_tab s)) [0..<length foods]
      in \<lparr>ui_amounts = amts, ui_totalCost = total_cost foods amts\<rparr>)"

text \<open>
  The recursion equations of the three loops are applied by hand in the proofs below.
\<close>

declare simplex_loop.simps [simp del]

declare simplex_iterate.simps [simp del]

declare sweep.simps [simp del]


section \<open>Notions used to state the properties\<close>

text \<open>A tableau as the constructor builds it: \<open>rows\<close> rows of \<open>cols\<close> entries each.\<close>

definition wf_tableau :: "tableau \<Rightarrow> bool" where
  "wf_tableau t =
     (length (matrix t) = rows t \<and> list_all (\<lambda>r. length r = cols t) (matrix t)
      \<and> length (basis t) = rows t)"

text \<open>Column \<open>c\<close> is the unit vector of row \<open>r\<close>.\<close>

definition unit_column :: "tableau \<Rightarrow> nat \<Rightarrow> nat \<Rightarrow> bool" where
  "unit_column t r c =
     (matrix t ! r ! c = 1 \<and> list_all (\<lambda>i. i = r \<or> matrix t ! i ! c = 0) [0..<rows t])"

text \<open>The ratio of a row in the ratio test, and the rows that take part in it.\<close>

definition ratio :: "tableau \<Rightarrow> nat \<Rightarrow> nat \<Rightarrow> real" where
  "ratio t c i = - (matrix t ! i ! (cols t - 1)) / (matrix t ! i ! c)"

definition qualifies :: "tableau \<Rightarrow> nat \<Rightarrow> nat \<Rightarrow> bool" where
  "qualifies t c i = (matrix t ! i ! c < - epsilon \<and> ratio t c i > 0)"

text \<open>The two scans after their first \<open>n\<close> steps.\<close>

definition column_scan :: "real list \<Rightarrow> nat \<Rightarrow> real \<times> nat option" where
  "column_scan objRow n = fold (pivotColumn_step objRow) [0..<n] (0, None)"

definition row_scan :: "tableau \<Rightarrow> nat \<Rightarrow> nat \<Rightarrow> real option \<times> nat option" where
  "row_scan t c n = fold (pivotRow_step t c) [0..<n] (None, None)"

text \<open>
  One pivot as the loop body selects it, and \<open>n\<close> of them in a row: \<open>pivots n t = Some t'\<close>
  says that the engine, started on \<open>t\<close>, can pivot \<open>n\<close> times and then holds \<open>t'\<close>.
\<close>

definition pivot_step :: "tableau \<Rightarrow> tableau option" where
  "pivot_step t =
     (case findPivotColumn t of
        None \<Rightarrow> None
      | Some c \<Rightarrow> (case findPivotRow t c of None \<Rightarrow> None | Some r \<Rightarrow> Some (pivot t r c)))"

fun pivots :: "nat \<Rightarrow> tableau \<Rightarrow> tableau option" where
  "pivots 0 t = Some t"
| "pivots (Suc n) t = (case pivot_step t of None \<Rightarrow> None | Some t' \<Rightarrow> pivots n t')"

text \<open>The nutrients a list of amounts delivers for one constraint key.\<close>

definition delivered :: "food list \<Rightarrow> real list \<Rightarrow> key \<Rightarrow> real" where
  "delivered foods amts k =
     sum_list (map (\<lambda>j. amts ! j * food_get (foods ! j) k) [0..<length foods])"

text \<open>
  The extractor as the specification words it: column \<open>j\<close> is basic at row \<open>i\<close> when the
  entry is within \<open>epsilon\<close> of \<open>1\<close> and every other constraint row is strictly within
  \<open>epsilon\<close> of \<open>0\<close>; the amount is \<open>max(0, RHS[i])\<close> when exactly one row is such, else \<open>0\<close>.
\<close>

definition spec_basic_at :: "tableau \<Rightarrow> nat \<Rightarrow> nat \<Rightarrow> bool" where
  "spec_basic_at t j i =
     (\<bar>matrix t ! i ! j - 1\<bar> < epsilon
      \<and> list_all (\<lambda>k. k = i \<or> \<bar>matrix t ! k ! j\<bar> < epsilon) [0..<numConstraints])"

definition spec_amount :: "tableau \<Rightarrow> nat \<Rightarrow> nat \<Rightarrow> real" where
  "spec_amount t totalCols j =
     (case filter (spec_basic_at t j) [0..<numConstraints] of
        [i] \<Rightarrow> max 0 (matrix t ! i ! (totalCols - 1))
      | _ \<Rightarrow> 0)"

text \<open>The sensitivity sweep in closed form.\<close>

definition pcts :: "int list" where
  "pcts = [- 50, - 40, - 30, - 20, - 10, 0, 10, 20, 30, 40, 50]"

definition sweep_at :: "real \<Rightarrow> real \<Rightarrow> int \<Rightarrow> sweep_entry" where
  "sweep_at unitCost amount pct =
     \<lparr>priceChange = pct,
      newPrice = unitCost * (1 + real_of_int pct / 100),
      impactOnTotal = amount * (unitCost * (1 + real_of_int pct / 100) - unitCost)\<rparr>"

definition used :: "real list \<Rightarrow> nat \<Rightarrow> bool" where
  "used amts idx = (idx < length amts \<and> amts ! idx > epsilon)"


definition of_tableau :: "tableau \<Rightarrow> js_tableau" where
  "of_tableau t =
     \<lparr>js_rows = rows t, js_cols = cols t, js_matrix = map (map Some) (matrix t),
      js_basis = basis t\<rparr>"

definition of_state :: "loop_state \<Rightarrow> js_loop_state" where
  "of_state s =
     \<lparr>jl_tableau = of_tableau (ls_tableau s), jl_iteration = ls_iteration s,
      jl_iterations = map (map (map Some)) (ls_iterations s)\<rparr>"



section \<open>Concrete inputs\<close>

text \<open>The reference item set and requirements (the defaults of every copy).\<close>

definition reference_foods :: "food list" where
  "reference_foods =
     [\<lparr>name = ''Oatmeal'', cost = 1 / 2, protein = 5, carbs = 27, fat = 3, fiber = 4,
        vitamins = 15\<rparr>,
      \<lparr>name = ''Chicken Breast'', cost = 3, protein = 31, carbs = 0, fat = 36 / 10, fiber = 0,
        vitamins = 10\<rparr>,
      \<lparr>name = ''Brown Rice'', cost = 3 / 10, protein = 26 / 10, carbs = 23, fat = 9 / 10,
        fiber = 18 / 10, vitamins = 5\<rparr>,
      \<lparr>name = ''Broccoli'', cost = 15 / 10, protein = 28 / 10, carbs = 7, fat = 4 / 10,
        fiber = 26 / 10, vitamins = 135\<rparr>,
      \<lparr>name = ''Banana'', cost = 1 / 4, protein = 13 / 10, carbs = 27, fat = 3 / 10,
        fiber = 31 / 10, vitamins = 17\<rparr>]"

definition reference_requirements :: constraints where
  "reference_requirements =
     \<lparr>min_protein = 50, min_carbs = 130, min_fat = 44, min_fiber = 25, min_vitamins = 100\<rparr>"


definition free_food :: food where
  "free_food = \<lparr>name = ''Free'', cost = - 1, protein = 0, carbs = 0, fat = 0, fiber = 0,
                 vitamins = 0\<rparr>"

text \<open>A column that is basic from the start, and one that sits on the \<open>epsilon\<close> boundary.\<close>

definition basic_foods :: "food list" where
  "basic_foods = [\<lparr>name = ''W'', cost = 1, protein = - 1, carbs = 0, fat = 0, fiber = 0,
                    vitamins = 0\<rparr>]"

definition boundary_foods :: "food list" where
  "boundary_foods = [\<lparr>name = ''X'', cost = 1, protein = - 1, carbs = - (1 / 1000000), fat = 0,
                       fiber = 0, vitamins = 0\<rparr>]"

definition boundary_requirements :: constraints where
  "boundary_requirements =
     \<lparr>min_protein = - 5, min_carbs = 0, min_fat = 0, min_fiber = 0, min_vitamins = 0\<rparr>"

text \<open>Two inputs with negative unit costs on which the engine pivots (twice, three times).\<close>

definition cheap_foods :: "food list" where
  "cheap_foods =
     [\<lparr>name = ''U'', cost = - 1, protein = 0, carbs = 0, fat = 0, fiber = - 1, vitamins = 2\<rparr>,
      \<lparr>name = ''V'', cost = - 1, protein = 0, carbs = 0, fat = 0, fiber = 0, vitamins = 1\<rparr>]"

definition cheap_requirements :: constraints where
  "cheap_requirements =
     \<lparr>min_protein = 0, min_carbs = - 3, min_fat = 0, min_fiber = - 2, min_vitamins = - 3\<rparr>"

definition three_foods :: "food list" where
  "three_foods =
     [\<lparr>name = ''A'', cost = - 3, protein = 1, carbs = 2, fat = 1, fiber = 2, vitamins = 0\<rparr>,
      \<lparr>name = ''B'', cost = - 1, protein = - 2, carbs = - 1, fat = 2, fiber = - 2,
        vitamins = 2\<rparr>]"

definition three_requirements :: constraints where
  "three_requirements =
     \<lparr>min_protein = - 2, min_carbs = - 3, min_fat = 1, min_fiber = - 2, min_vitamins = - 3\<rparr>"

text \<open>A loop state at the iteration cap whose objective row still has a negative entry.\<close>

definition capped_state :: loop_state where
  "capped_state =
     \<lparr>ls_tableau = initial_tableau three_foods three_requirements, ls_iteration = 100,
      ls_iterations = []\<rparr>"

text \<open>An item whose only coefficient lies between \<open>-epsilon\<close> and \<open>0\<close> in the tableau.\<close>

definition trace_food :: food where
  "trace_food = \<lparr>name = ''Trace'', cost = - 1, protein = 1 / 10000000, carbs = 0, fat = 0,
                  fiber = 0, vitamins = 0\<rparr>"

definition trace_requirements :: constraints where
  "trace_requirements =
     \<lparr>min_protein = - 1, min_carbs = 0, min_fat = 0, min_fiber = 0, min_vitamins = 0\<rparr>"












section \<open>Auxiliary lemmas\<close>

subsection \<open>The pivot operation\<close>

lemma epsilon_pos: "0 < epsilon"
  by (simp add: epsilon_def)

lemma pivot_entry:
  "i < rows t \<Longrightarrow> j < cols t \<Longrightarrow>
   matrix (pivot t r c) ! i ! j =
     (if i \<noteq> r then matrix t ! i ! j - matrix t ! i ! c * (matrix t ! r ! j / matrix t ! r ! c)
      else matrix t ! r ! j / matrix t ! r ! c)"
  by (simp add: pivot_def Let_def)

lemma pivot_shape: "rows (pivot t r c) = rows t" "cols (pivot t r c) = cols t"
   "length (basis (pivot t r c)) = length (basis t)"
  by (simp_all add: pivot_def Let_def)

lemma pivot_wf: "wf_tableau t \<Longrightarrow> wf_tableau (pivot t r c)"
  by (auto simp add: wf_tableau_def pivot_def Let_def list_all_iff)

lemma pivot_unit:
  assumes "r < rows t" "c < cols t" "matrix t ! r ! c \<noteq> 0"
  shows "unit_column (pivot t r c) r c"
  using assms by (simp add: unit_column_def list_all_iff pivot_entry pivot_shape)

lemma pivot_basis:
  "r < length (basis t) \<Longrightarrow> basis (pivot t r c) ! r = c"
  by (simp add: pivot_def Let_def)

subsection \<open>The entering column\<close>

lemma column_scan_Suc: "column_scan objRow (Suc n) = pivotColumn_step objRow n (column_scan objRow n)"
  by (simp add: column_scan_def)

lemma column_scan_inv:
  "(case column_scan objRow n of
      (mv, None) \<Rightarrow> mv = 0 \<and> (\<forall>j<n. 0 \<le> objRow ! j)
    | (mv, Some c) \<Rightarrow> c < n \<and> mv = objRow ! c \<and> mv < 0 \<and> (\<forall>j<n. objRow ! c \<le> objRow ! j)
         \<and> (\<forall>j<c. objRow ! c < objRow ! j))"
proof (induction n)
  case 0
  show ?case by (simp add: column_scan_def)
next
  case (Suc n)
  obtain mv pc where s: "column_scan objRow n = (mv, pc)" by (cases "column_scan objRow n")
  show ?case
  proof (cases pc)
    case None
    with Suc s show ?thesis
      by (auto simp add: column_scan_Suc pivotColumn_step_def less_Suc_eq not_less)
  next
    case (Some c)
    with Suc s have inv: "c < n" "mv = objRow ! c" "mv < 0" "\<forall>j<n. objRow ! c \<le> objRow ! j"
      "\<forall>j<c. objRow ! c < objRow ! j" by simp_all
    show ?thesis
    proof (cases "objRow ! n < mv")
      case True
      then have "column_scan objRow (Suc n) = (objRow ! n, Some n)"
        by (simp add: column_scan_Suc s pivotColumn_step_def)
      moreover have "\<forall>j<Suc n. objRow ! n \<le> objRow ! j"
        using True inv by (auto simp add: less_Suc_eq intro: order_trans less_imp_le)
      moreover have "\<forall>j<n. objRow ! n < objRow ! j"
        using True inv by (auto intro: less_le_trans)
      moreover have "objRow ! n < 0" using True inv(3) by linarith
      ultimately show ?thesis by simp
    next
      case False
      then have "column_scan objRow (Suc n) = (mv, Some c)"
        by (simp add: column_scan_Suc s pivotColumn_step_def Some)
      then show ?thesis using False inv by (auto simp add: less_Suc_eq)
    qed
  qed
qed

lemma findPivotColumn_scan: "findPivotColumn t = snd (column_scan (matrix t ! (rows t - 1)) (cols t - 1))"
  by (simp add: findPivotColumn_def column_scan_def)

lemma findPivotColumn_None:
  "findPivotColumn t = None \<longleftrightarrow> (\<forall>j<cols t - 1. 0 \<le> matrix t ! (rows t - 1) ! j)"
  using column_scan_inv [where objRow = "matrix t ! (rows t - 1)" and n = "cols t - 1"]
  by (cases "column_scan (matrix t ! (rows t - 1)) (cols t - 1)")
     (auto simp add: findPivotColumn_scan split: option.splits)

lemma findPivotColumn_Some:
  "findPivotColumn t = Some c \<Longrightarrow>
     c < cols t - 1 \<and> matrix t ! (rows t - 1) ! c < 0
     \<and> (\<forall>j<cols t - 1. matrix t ! (rows t - 1) ! c \<le> matrix t ! (rows t - 1) ! j)
     \<and> (\<forall>j<c. matrix t ! (rows t - 1) ! c < matrix t ! (rows t - 1) ! j)"
  using column_scan_inv [where objRow = "matrix t ! (rows t - 1)" and n = "cols t - 1"]
  by (cases "column_scan (matrix t ! (rows t - 1)) (cols t - 1)")
     (auto simp add: findPivotColumn_scan split: option.splits)

subsection \<open>The leaving row\<close>

lemma row_scan_Suc: "row_scan t c (Suc n) = pivotRow_step t c n (row_scan t c n)"
  by (simp add: row_scan_def)

lemma pivotRow_step_eq:
  "pivotRow_step t c i (mr, pr) =
     (if qualifies t c i \<and> below (ratio t c i) mr then (Some (ratio t c i), Some i) else (mr, pr))"
  by (auto simp add: pivotRow_step_def qualifies_def ratio_def Let_def)

lemma row_scan_inv:
  "(case row_scan t c n of
      (mr, None) \<Rightarrow> mr = None \<and> (\<forall>i<n. \<not> qualifies t c i)
    | (mr, Some r) \<Rightarrow> r < n \<and> mr = Some (ratio t c r) \<and> qualifies t c r
         \<and> (\<forall>i<n. qualifies t c i \<longrightarrow> ratio t c r \<le> ratio t c i)
         \<and> (\<forall>i<r. qualifies t c i \<longrightarrow> ratio t c r < ratio t c i))"
proof (induction n)
  case 0
  show ?case by (simp add: row_scan_def)
next
  case (Suc n)
  obtain mr pr where s: "row_scan t c n = (mr, pr)" by (cases "row_scan t c n")
  show ?case
  proof (cases pr)
    case None
    with Suc s have inv: "mr = None" "\<forall>i<n. \<not> qualifies t c i" by simp_all
    show ?thesis
    proof (cases "qualifies t c n")
      case True
      then have "row_scan t c (Suc n) = (Some (ratio t c n), Some n)"
        by (simp add: row_scan_Suc s pivotRow_step_eq inv(1) below_def)
      then show ?thesis using True inv(2) by (auto simp add: less_Suc_eq)
    next
      case False
      then have "row_scan t c (Suc n) = (None, None)"
        by (simp add: row_scan_Suc s pivotRow_step_eq inv(1) None)
      then show ?thesis using False inv(2) by (auto simp add: less_Suc_eq)
    qed
  next
    case (Some r)
    with Suc s have inv: "r < n" "mr = Some (ratio t c r)" "qualifies t c r"
      "\<forall>i<n. qualifies t c i \<longrightarrow> ratio t c r \<le> ratio t c i"
      "\<forall>i<r. qualifies t c i \<longrightarrow> ratio t c r < ratio t c i" by simp_all
    show ?thesis
    proof (cases "qualifies t c n \<and> ratio t c n < ratio t c r")
      case True
      then have "row_scan t c (Suc n) = (Some (ratio t c n), Some n)"
        by (simp add: row_scan_Suc s pivotRow_step_eq inv(2) below_def)
      moreover have "\<forall>i<Suc n. qualifies t c i \<longrightarrow> ratio t c n \<le> ratio t c i"
        using True inv(4) by (auto simp add: less_Suc_eq intro: order_trans less_imp_le)
      moreover have "\<forall>i<n. qualifies t c i \<longrightarrow> ratio t c n < ratio t c i"
        using True inv(4) by (auto intro: less_le_trans)
      ultimately show ?thesis using True by simp
    next
      case False
      then have "row_scan t c (Suc n) = (mr, Some r)"
        by (auto simp add: row_scan_Suc s pivotRow_step_eq inv(2) below_def Some)
      moreover have "\<forall>i<Suc n. qualifies t c i \<longrightarrow> ratio t c r \<le> ratio t c i"
        using False inv(4) by (auto simp add: less_Suc_eq not_less)
      ultimately show ?thesis using inv by simp
    qed
  qed
qed

lemma findPivotRow_scan: "findPivotRow t c = snd (row_scan t c (rows t - 1))"
  by (simp add: findPivotRow_def row_scan_def)

lemma findPivotRow_None:
  "findPivotRow t c = None \<longleftrightarrow> (\<forall>i<rows t - 1. \<not> qualifies t c i)"
  using row_scan_inv [where t = t and c = c and n = "rows t - 1"]
  by (cases "row_scan t c (rows t - 1)") (auto simp add: findPivotRow_scan split: option.splits)

lemma findPivotRow_Some:
  "findPivotRow t c = Some r \<Longrightarrow>
     r < rows t - 1 \<and> qualifies t c r
     \<and> (\<forall>i<rows t - 1. qualifies t c i \<longrightarrow> ratio t c r \<le> ratio t c i)
     \<and> (\<forall>i<r. qualifies t c i \<longrightarrow> ratio t c r < ratio t c i)"
  using row_scan_inv [where t = t and c = c and n = "rows t - 1"]
  by (cases "row_scan t c (rows t - 1)") (auto simp add: findPivotRow_scan split: option.splits)

lemma selected_pivot:
  assumes "findPivotColumn t = Some c" "findPivotRow t c = Some r"
  shows "r < rows t - 1" "c < cols t - 1" "matrix t ! r ! c < - epsilon"
  using findPivotColumn_Some [OF assms(1)] findPivotRow_Some [OF assms(2)]
  by (simp_all add: qualifies_def)

subsection \<open>The iteration\<close>

lemma loop_exit_at_cap: "maxIterations \<le> ls_iteration s \<Longrightarrow> simplex_loop s = Inr s"
  by (subst simplex_loop.simps) simp

lemma loop_Inr:
  "simplex_loop s = Inr s' \<Longrightarrow>
     ls_iteration s \<le> ls_iteration s'
     \<and> pivots (ls_iteration s' - ls_iteration s) (ls_tableau s) = Some (ls_tableau s')
     \<and> (ls_iteration s \<le> maxIterations \<longrightarrow> ls_iteration s' \<le> maxIterations)"
proof (induction s rule: simplex_loop.induct)
  case (1 s)
  show ?case
  proof (cases "ls_iteration s < maxIterations")
    case False
    with "1.prems" have "s' = s" by (simp add: simplex_loop.simps [of s])
    then show ?thesis by simp
  next
    case True
    note lt = True
    show ?thesis
    proof (cases "findPivotColumn (ls_tableau s)")
      case None
      with lt "1.prems" have "s' = s\<lparr>ls_iterations := ls_iterations s @ [matrix (ls_tableau s)]\<rparr>"
        by (simp add: simplex_loop.simps [of s] Let_def)
      then show ?thesis by simp
    next
      case (Some c)
      note c = Some
      show ?thesis
      proof (cases "findPivotRow (ls_tableau s) c")
        case None
        with lt c "1.prems" show ?thesis by (simp add: simplex_loop.simps [of s] Let_def)
      next
        case (Some r)
        let ?s1 = "\<lparr>ls_tableau = pivot (ls_tableau s) r c, ls_iteration = ls_iteration s + 1,
                    ls_iterations = ls_iterations s @ [matrix (ls_tableau s)]\<rparr>"
        from lt c Some "1.prems" have run: "simplex_loop ?s1 = Inr s'"
          by (simp add: simplex_loop.simps [of s] Let_def)
        have ih: "ls_iteration ?s1 \<le> ls_iteration s'
            \<and> pivots (ls_iteration s' - ls_iteration ?s1) (ls_tableau ?s1) = Some (ls_tableau s')
            \<and> (ls_iteration ?s1 \<le> maxIterations \<longrightarrow> ls_iteration s' \<le> maxIterations)"
          using "1.IH" [OF lt refl c Some run] .
        then have le: "ls_iteration s + 1 \<le> ls_iteration s'" by simp
        then have d: "ls_iteration s' - ls_iteration s = Suc (ls_iteration s' - (ls_iteration s + 1))"
          by simp
        have "pivot_step (ls_tableau s) = Some (pivot (ls_tableau s) r c)"
          by (simp add: pivot_step_def c Some)
        then have "pivots (ls_iteration s' - ls_iteration s) (ls_tableau s) = Some (ls_tableau s')"
          using ih by (simp add: d)
        then show ?thesis using ih le lt by simp
      qed
    qed
  qed
qed

lemma loop_Inl:
  "simplex_loop s = Inl e \<Longrightarrow>
     \<exists>n t' c. ls_iteration s + n < maxIterations \<and> pivots n (ls_tableau s) = Some t'
        \<and> findPivotColumn t' = Some c \<and> findPivotRow t' c = None"
proof (induction s rule: simplex_loop.induct)
  case (1 s)
  show ?case
  proof (cases "ls_iteration s < maxIterations")
    case False
    with "1.prems" show ?thesis by (simp add: simplex_loop.simps [of s])
  next
    case True
    note lt = True
    show ?thesis
    proof (cases "findPivotColumn (ls_tableau s)")
      case None
      with lt "1.prems" show ?thesis by (simp add: simplex_loop.simps [of s] Let_def)
    next
      case (Some c)
      note c = Some
      show ?thesis
      proof (cases "findPivotRow (ls_tableau s) c")
        case None
        have "ls_iteration s + 0 < maxIterations \<and> pivots 0 (ls_tableau s) = Some (ls_tableau s)
          \<and> findPivotColumn (ls_tableau s) = Some c \<and> findPivotRow (ls_tableau s) c = None"
          using lt c None by simp
        then show ?thesis by blast
      next
        case (Some r)
        let ?s1 = "\<lparr>ls_tableau = pivot (ls_tableau s) r c, ls_iteration = ls_iteration s + 1,
                    ls_iterations = ls_iterations s @ [matrix (ls_tableau s)]\<rparr>"
        from lt c Some "1.prems" have run: "simplex_loop ?s1 = Inl e"
          by (simp add: simplex_loop.simps [of s] Let_def)
        from "1.IH" [OF lt refl c Some run]
        obtain n t' c' where n: "ls_iteration ?s1 + n < maxIterations"
          "pivots n (ls_tableau ?s1) = Some t'" "findPivotColumn t' = Some c'" "findPivotRow t' c' = None"
          by blast
        have "pivot_step (ls_tableau s) = Some (pivot (ls_tableau s) r c)"
          by (simp add: pivot_step_def c Some)
        then have "ls_iteration s + Suc n < maxIterations \<and> pivots (Suc n) (ls_tableau s) = Some t'"
          using n by simp
        then show ?thesis using n(3,4) by blast
      qed
    qed
  qed
qed



lemma iterate_bound: "ts_iter s \<le> maxIter \<Longrightarrow> ts_iter (simplex_iterate s) \<le> maxIter"
proof (induction s rule: simplex_iterate.induct)
  case (1 s)
  show ?case
  proof (cases "ts_iter s < maxIter")
    case False
    with "1.prems" show ?thesis by (subst simplex_iterate.simps) simp
  next
    case True
    note lt = True
    show ?thesis
    proof (cases "enterCol (ts_tab s)")
      case None
      with lt "1.prems" show ?thesis by (subst simplex_iterate.simps) (simp add: Let_def)
    next
      case (Some c)
      note c = Some
      show ?thesis
      proof (cases "leaveRow (ts_tab s) c")
        case None
        with lt c "1.prems" show ?thesis by (subst simplex_iterate.simps) (simp add: Let_def)
      next
        case (Some r)
        let ?s1 = "\<lparr>ts_tab = tab_pivot (ts_tab s) r c, ts_iter = ts_iter s + 1,
                    ts_iterations = ts_iterations s @ [ts_tab s]\<rparr>"
        have "ts_iter (simplex_iterate ?s1) \<le> maxIter"
          using "1.IH" [OF lt refl c Some] lt by simp
        moreover have "simplex_iterate s = simplex_iterate ?s1"
          using lt c Some by (subst simplex_iterate.simps) (simp add: Let_def)
        ultimately show ?thesis by simp
      qed
    qed
  qed
qed

subsection \<open>The extractor\<close>

lemma allZero_iff:
  "allZero t j i \<longleftrightarrow> (\<forall>k<numConstraints. k \<noteq> i \<longrightarrow> \<bar>matrix t ! k ! j\<bar> \<le> epsilon)"
  by (auto simp add: allZero_def list_all_iff not_less)

lemma basic_unique:
  assumes "\<bar>matrix t ! i ! j - 1\<bar> < epsilon" "allZero t j i'" "i < numConstraints" "i \<noteq> i'"
  shows False
proof -
  have "\<bar>matrix t ! i ! j\<bar> \<le> epsilon" using assms(2,3,4) by (simp add: allZero_iff)
  with assms(1) show False by (simp add: epsilon_def abs_if split: if_splits)
qed

lemma basicRow_Some:
  "basicRow t j = Some i \<longleftrightarrow>
     i < numConstraints \<and> \<bar>matrix t ! i ! j - 1\<bar> < epsilon \<and> allZero t j i"
proof
  assume "basicRow t j = Some i"
  then show "i < numConstraints \<and> \<bar>matrix t ! i ! j - 1\<bar> < epsilon \<and> allZero t j i"
    by (auto simp add: basicRow_def find_Some_iff)
next
  assume a: "i < numConstraints \<and> \<bar>matrix t ! i ! j - 1\<bar> < epsilon \<and> allZero t j i"
  have "\<forall>i'<i. \<not> (\<bar>matrix t ! i' ! j - 1\<bar> < epsilon \<and> allZero t j i')"
    using a basic_unique [of t _ j i] by (metis less_trans nat_neq_iff)
  with a show "basicRow t j = Some i"
    unfolding basicRow_def find_Some_iff
    by (intro exI [of _ i]) simp
qed

lemma basicRow_None:
  "basicRow t j = None \<longleftrightarrow>
     (\<forall>i<numConstraints. \<not> (\<bar>matrix t ! i ! j - 1\<bar> < epsilon \<and> allZero t j i))"
  by (auto simp add: basicRow_def find_None_iff)

lemma extract_amounts_nth:
  "j < numFoods \<Longrightarrow>
     extract_amounts t numFoods ! j = extract_amount t (numFoods + numConstraints + 1) j"
  by (simp add: extract_amounts_def)

lemma extract_amount_nonneg: "0 \<le> extract_amount t totalCols j"
  by (simp add: extract_amount_def split: option.splits)

lemma fold_sum: "fold (\<lambda>i sum. sum + g i) [0..<n] (a::real) = a + (\<Sum>i<n. g i)"
  by (induction n) simp_all

lemma total_cost_sum:
  "total_cost foods amts = (\<Sum>i<length amts. amts ! i * cost (foods ! i))"
  by (simp add: total_cost_def fold_sum)

subsection \<open>The initial tableau\<close>

lemma fold_update_length [simp]: "length (fold (\<lambda>j r. r[j := f j]) xs row) = length row"
  by (induction xs arbitrary: row) simp_all

lemma fold_update_nth:
  "k < length row \<Longrightarrow>
     fold (\<lambda>j r. r[j := f j]) [0..<n] row ! k = (if k < n then f k else row ! k)"
  by (induction n) (auto simp add: nth_list_update less_Suc_eq)

lemma constraint_row_length [simp]: "length (constraint_row foods cs i row) = length row"
  by (simp add: constraint_row_def Let_def)

lemma constraint_row_nth:
  assumes "length row = length foods + numConstraints + 1" "i < numConstraints" "j < length foods"
  shows "constraint_row foods cs i row ! j = - food_get (foods ! j) (constraintKeys ! i)"
  using assms by (simp add: constraint_row_def Let_def nth_list_update fold_update_nth)

lemma objective_row_nth:
  "j < length row \<Longrightarrow>
     objective_row foods row ! j = (if j < length foods then cost (foods ! j) else row ! j)"
  by (simp add: objective_row_def fold_update_nth)

lemma upt_constraints: "[0..<5] = [0, 1, 2, 3, 4::nat]"
  by code_simp

lemma initial_shape:
  "rows (initial_tableau foods cs) = 6" "cols (initial_tableau foods cs) = length foods + 6"
  by (simp_all add: initial_tableau_def new_tableau_def numConstraints_def Let_def upt_constraints)

lemma initial_objective:
  "j < length foods + 6 \<Longrightarrow>
     matrix (initial_tableau foods cs) ! 5 ! j = (if j < length foods then cost (foods ! j) else 0)"
  by (simp add: initial_tableau_def new_tableau_def numConstraints_def Let_def objective_row_nth
        upt_constraints)

lemma initial_entry:
  "i < 5 \<Longrightarrow> j < length foods \<Longrightarrow>
     matrix (initial_tableau foods cs) ! i ! j = - food_get (foods ! j) (constraintKeys ! i)"
proof -
  assume "i < 5" "j < length foods"
  then have "i = 0 \<or> i = 1 \<or> i = 2 \<or> i = 3 \<or> i = 4" by arith
  then show ?thesis
    using \<open>j < length foods\<close>
    by (auto simp add: initial_tableau_def new_tableau_def Let_def numConstraints_def
        upt_constraints constraint_row_nth)
qed

subsection \<open>Inputs without a negative unit cost; a free item without nutrients\<close>

lemma no_negative_cost_no_pivot:
  assumes "\<forall>j<length foods. 0 \<le> cost (foods ! j)"
  shows "simplex_loop (start_state foods cs) =
           Inr \<lparr>ls_tableau = initial_tableau foods cs, ls_iteration = 0,
                ls_iterations = [matrix (initial_tableau foods cs)]\<rparr>"
proof -
  have "findPivotColumn (initial_tableau foods cs) = None"
    using assms by (simp add: findPivotColumn_None initial_shape initial_objective)
  then show ?thesis
    by (subst simplex_loop.simps) (simp add: start_state_def maxIterations_def Let_def)
qed


lemma nonneg_input_all_zero:
  assumes c: "\<forall>j<length foods. 0 \<le> cost (foods ! j)"
    and n: "\<forall>j<length foods. \<forall>k. 0 \<le> food_get (foods ! j) k"
  shows "\<exists>sol. simplexSolve foods cs = Inr sol \<and> amounts sol = replicate (length foods) 0
            \<and> totalCost sol = 0"
proof -
  let ?t = "initial_tableau foods cs"
  let ?s = "\<lparr>ls_tableau = ?t, ls_iteration = 0, ls_iterations = [matrix ?t]\<rparr>"
  have solve: "simplexSolve foods cs = Inr (make_solution foods ?s)"
    by (simp add: simplexSolve_def no_negative_cost_no_pivot [OF c])
  have "\<And>j. j < length foods \<Longrightarrow> basicRow ?t j = None"
  proof -
    fix j assume j: "j < length foods"
    have "\<And>i. i < 5 \<Longrightarrow> \<not> \<bar>matrix ?t ! i ! j - 1\<bar> < epsilon"
    proof -
      fix i :: nat assume "i < 5"
      then have "matrix ?t ! i ! j = - food_get (foods ! j) (constraintKeys ! i)"
        using j by (simp add: initial_entry)
      moreover have "0 \<le> food_get (foods ! j) (constraintKeys ! i)" using n j by simp
      ultimately show "\<not> \<bar>matrix ?t ! i ! j - 1\<bar> < epsilon"
        by (simp add: epsilon_def)
    qed
    then show "basicRow ?t j = None"
      by (simp add: basicRow_None numConstraints_def)
  qed
  then have "\<And>j. j < length foods \<Longrightarrow> extract_amounts ?t (length foods) ! j = 0"
    by (simp add: extract_amounts_nth extract_amount_def)
  moreover have "length (extract_amounts ?t (length foods)) = length foods"
    by (simp add: extract_amounts_def)
  ultimately have am: "extract_amounts ?t (length foods) = replicate (length foods) 0"
    by (intro nth_equalityI) simp_all
  then have "amounts (make_solution foods ?s) = replicate (length foods) 0"
    by (simp add: make_solution_def Let_def)
  moreover have "totalCost (make_solution foods ?s) = 0"
    by (simp add: make_solution_def Let_def am total_cost_sum)
  ultimately show ?thesis using solve by blast
qed

subsection \<open>The sensitivity sweep\<close>

lemma sweep_closed: "sweep unitCost amount (- 50) [] = map (sweep_at unitCost amount) pcts"
  by (simp add: sweep.simps Let_def pcts_def sweep_at_def)

lemma sens_fold:
  "fold (sens_step foods amts) xs acc =
     acc @ map (\<lambda>idx. \<lparr>sens_food = name (foods ! idx), currentPrice = cost (foods ! idx),
                        quantity = amts ! idx,
                        analysis = map (sweep_at (cost (foods ! idx)) (amts ! idx)) pcts\<rparr>)
               (filter (used amts) xs)"
  by (induction xs arbitrary: acc) (simp_all add: sens_step_def used_def sweep_closed)

subsection \<open>Shapes kept by the engine; the request keys\<close>





subsection \<open>The ratio test of the server copy\<close>

text \<open>
  \<open>findPivotRow\<close> of the server copy (the C, Swift and Zig copies read the same) returns
  none exactly when no constraint row has an entry below \<open>-epsilon\<close> with a strictly positive
  ratio, and otherwise the first row of least ratio among those rows.
\<close>

lemma findPivotRow_spec:
  "(findPivotRow t c = None \<longleftrightarrow> (\<forall>i<rows t - 1. \<not> qualifies t c i))
   \<and> (findPivotRow t c = Some r \<longrightarrow>
        r < rows t - 1 \<and> qualifies t c r
        \<and> (\<forall>i<rows t - 1. qualifies t c i \<longrightarrow> ratio t c r \<le> ratio t c i)
        \<and> (\<forall>i<r. qualifies t c i \<longrightarrow> ratio t c r < ratio t c i))"
  using findPivotRow_None [of t c] findPivotRow_Some [of t c r] by blast

subsection \<open>The solver on request values agrees with the solver on numbers\<close>












lemma of_state_sel [simp]:
  "jl_tableau (of_state s) = of_tableau (ls_tableau s)"
  "jl_iteration (of_state s) = ls_iteration s"
  "jl_iterations (of_state s) = map (map (map Some)) (ls_iterations s)"
  by (simp_all add: of_state_def)






















section \<open>The claims\<close>

subsection \<open>C1: feasible inputs are not solved\<close>

text \<open>
  Claim C1 asks that for every feasible input with nonnegative costs, nutrients and
  requirements the returned amounts are nonnegative and deliver every requirement up to
  \<open>epsilon\<close>.  On the reference input the server copy returns the amount \<open>0\<close> for every
  item, a total cost of \<open>0\<close> and \<open>feasible = true\<close>: nothing is delivered against a protein
  requirement of \<open>50\<close>, although 15 units of oatmeal alone meet all five requirements.
  The objective row of the initial tableau holds the unit costs, none of them negative, so
  the loop stops before its first pivot (lemma \<open>nonneg_input_all_zero\<close> shows this for
  every input of the data model).
\<close>

theorem reference_diet_unmet:
  "\<not> isl (simplexSolve reference_foods reference_requirements)
   \<and> amounts (projr (simplexSolve reference_foods reference_requirements)) = [0, 0, 0, 0, 0]
   \<and> totalCost (projr (simplexSolve reference_foods reference_requirements)) = 0
   \<and> feasible (projr (simplexSolve reference_foods reference_requirements))
   \<and> delivered reference_foods
         (amounts (projr (simplexSolve reference_foods reference_requirements))) Protein
       < min_protein reference_requirements - epsilon
   \<and> list_all (\<lambda>k. constraints_get reference_requirements k
                      \<le> delivered reference_foods [15, 0, 0, 0, 0] k) constraintKeys"
  by code_simp

subsection \<open>C2: the extractor\<close>

text \<open>
  Claim C2, as amended.  When \<open>simplexSolve\<close> returns a solution, it is read from the
  tableau \<open>s\<close> the loop ended with: for every item column \<open>j\<close>, the amount is
  \<open>max(0, RHS[i])\<close> when a constraint row \<open>i\<close> has \<open>|matrix[i][j] - 1| < epsilon\<close> and every
  other constraint row \<open>k\<close> has \<open>|matrix[k][j]| \<le> epsilon\<close> (there is at most one such row), and
  \<open>0\<close> when no row is such; every amount is nonnegative; \<open>totalCost\<close> is the sum of
  \<open>amounts[j] * unitCost[j]\<close>, and it is nonnegative when no unit cost is negative.
\<close>

theorem extractor_spec:
  assumes "simplexSolve foods cs = Inr sol"
  shows "\<exists>s. simplex_loop (start_state foods cs) = Inr s
     \<and> length (amounts sol) = length foods
     \<and> (\<forall>j<length foods.
          (\<forall>i<numConstraints.
              \<bar>matrix (ls_tableau s) ! i ! j - 1\<bar> < epsilon
              \<and> (\<forall>k<numConstraints. k \<noteq> i \<longrightarrow> \<bar>matrix (ls_tableau s) ! k ! j\<bar> \<le> epsilon)
              \<longrightarrow> amounts sol ! j = max 0 (matrix (ls_tableau s) ! i ! (length foods + numConstraints)))
          \<and> ((\<forall>i<numConstraints.
                 \<not> (\<bar>matrix (ls_tableau s) ! i ! j - 1\<bar> < epsilon
                    \<and> (\<forall>k<numConstraints. k \<noteq> i \<longrightarrow> \<bar>matrix (ls_tableau s) ! k ! j\<bar> \<le> epsilon)))
              \<longrightarrow> amounts sol ! j = 0)
          \<and> 0 \<le> amounts sol ! j)
     \<and> totalCost sol = (\<Sum>j<length foods. amounts sol ! j * cost (foods ! j))
     \<and> ((\<forall>j<length foods. 0 \<le> cost (foods ! j)) \<longrightarrow> 0 \<le> totalCost sol)"
proof -
  from assms obtain s where s: "simplex_loop (start_state foods cs) = Inr s"
    and sol: "sol = make_solution foods s"
    by (auto simp add: simplexSolve_def split: sum.splits)
  let ?t = "ls_tableau s"
  let ?n = "length foods"
  have am: "amounts sol = extract_amounts ?t ?n"
    by (simp add: sol make_solution_def Let_def)
  have len: "length (amounts sol) = ?n"
    by (simp add: am extract_amounts_def)
  have nth: "\<And>j. j < ?n \<Longrightarrow> amounts sol ! j = extract_amount ?t (?n + numConstraints + 1) j"
    by (simp add: am extract_amounts_nth)
  have cols: "\<forall>j<?n.
          (\<forall>i<numConstraints.
              \<bar>matrix ?t ! i ! j - 1\<bar> < epsilon
              \<and> (\<forall>k<numConstraints. k \<noteq> i \<longrightarrow> \<bar>matrix ?t ! k ! j\<bar> \<le> epsilon)
              \<longrightarrow> amounts sol ! j = max 0 (matrix ?t ! i ! (?n + numConstraints)))
          \<and> ((\<forall>i<numConstraints.
                 \<not> (\<bar>matrix ?t ! i ! j - 1\<bar> < epsilon
                    \<and> (\<forall>k<numConstraints. k \<noteq> i \<longrightarrow> \<bar>matrix ?t ! k ! j\<bar> \<le> epsilon)))
              \<longrightarrow> amounts sol ! j = 0)
          \<and> 0 \<le> amounts sol ! j"
  proof (intro allI impI conjI)
    fix j i
    assume j: "j < ?n" and i: "i < numConstraints"
      and b: "\<bar>matrix ?t ! i ! j - 1\<bar> < epsilon
              \<and> (\<forall>k<numConstraints. k \<noteq> i \<longrightarrow> \<bar>matrix ?t ! k ! j\<bar> \<le> epsilon)"
    then have "basicRow ?t j = Some i"
      by (simp add: basicRow_Some allZero_iff)
    then show "amounts sol ! j = max 0 (matrix ?t ! i ! (?n + numConstraints))"
      using j by (simp add: nth extract_amount_def)
  next
    fix j
    assume j: "j < ?n"
      and nb: "\<forall>i<numConstraints.
                 \<not> (\<bar>matrix ?t ! i ! j - 1\<bar> < epsilon
                    \<and> (\<forall>k<numConstraints. k \<noteq> i \<longrightarrow> \<bar>matrix ?t ! k ! j\<bar> \<le> epsilon))"
    then have "basicRow ?t j = None"
      by (simp add: basicRow_None allZero_iff)
    then show "amounts sol ! j = 0"
      using j by (simp add: nth extract_amount_def)
  next
    fix j
    assume j: "j < ?n"
    then show "0 \<le> amounts sol ! j" by (simp add: nth extract_amount_nonneg)
  qed
  have tc: "totalCost sol = (\<Sum>j<?n. amounts sol ! j * cost (foods ! j))"
    using len by (simp add: sol make_solution_def Let_def total_cost_sum extract_amounts_def)
  have nn: "(\<forall>j<?n. 0 \<le> cost (foods ! j)) \<longrightarrow> 0 \<le> totalCost sol"
  proof
    assume c: "\<forall>j<?n. 0 \<le> cost (foods ! j)"
    have "0 \<le> (\<Sum>j<?n. amounts sol ! j * cost (foods ! j))"
      by (rule sum_nonneg) (use c cols in simp)
    then show "0 \<le> totalCost sol" by (simp add: tc)
  qed
  from s len cols tc nn show ?thesis by blast
qed

text \<open>
  Witness for C2: an input whose single column is basic at row \<open>0\<close> with right-hand side
  \<open>5\<close>.
\<close>

theorem extractor_spec_witness:
  "simplexSolve basic_foods boundary_requirements
      = Inr (projr (simplexSolve basic_foods boundary_requirements))
   \<and> amounts (projr (simplexSolve basic_foods boundary_requirements)) = [5]
   \<and> totalCost (projr (simplexSolve basic_foods boundary_requirements))
       = (\<Sum>j<length basic_foods.
            amounts (projr (simplexSolve basic_foods boundary_requirements)) ! j
              * cost (basic_foods ! j))
   \<and> 0 \<le> totalCost (projr (simplexSolve basic_foods boundary_requirements))"
proof -
  have h: "simplexSolve basic_foods boundary_requirements
      = Inr (projr (simplexSolve basic_foods boundary_requirements))"
    by code_simp
  have a: "amounts (projr (simplexSolve basic_foods boundary_requirements)) = [5]"
    by code_simp
  have c: "\<forall>j<length basic_foods. 0 \<le> cost (basic_foods ! j)"
    by (simp add: basic_foods_def)
  from extractor_spec [OF h] c h a show ?thesis by blast
qed

text \<open>
  Counterexample to C2 as stated.  On \<open>boundary_foods\<close> no pivot happens, column \<open>0\<close> of the
  final tableau has \<open>1\<close> in row \<open>0\<close> and exactly \<open>epsilon\<close> in row \<open>1\<close>: the strict test of the
  claim gives the amount \<open>0\<close>, the code gives \<open>5\<close>.  On \<open>cheap_foods\<close>, with negative unit
  costs, the total cost is \<open>-2\<close>.
\<close>

theorem extractor_boundary_counterexample:
  "ls_tableau (projr (simplex_loop (start_state boundary_foods boundary_requirements)))
     = initial_tableau boundary_foods boundary_requirements
   \<and> amounts (projr (simplexSolve boundary_foods boundary_requirements)) = [5]
   \<and> spec_amount (initial_tableau boundary_foods boundary_requirements) 7 0 = 0
   \<and> totalCost (projr (simplexSolve cheap_foods cheap_requirements)) = - 2"
  by code_simp

subsection \<open>C3: the iteration cap\<close>

text \<open>
  Claim C3.  The loop of \<open>simplexSolve\<close> is total, and from the initial tableau it ends
  either with a state whose counter is at most \<open>100\<close>, whose tableau is the initial one
  after exactly that many pivots and from which the solution is extracted, or with the
  unbounded error after fewer than \<open>100\<close> pivots.  A state whose counter has reached \<open>100\<close> is
  returned as it is, whatever its objective row.  The browser copy, whose cap is \<open>50\<close>,
  stays within \<open>100\<close> as well.
\<close>

theorem solve_bounded:
  "(case simplex_loop (start_state foods cs) of
      Inr s' \<Rightarrow> ls_iteration s' \<le> 100
                \<and> pivots (ls_iteration s') (initial_tableau foods cs) = Some (ls_tableau s')
                \<and> simplexSolve foods cs = Inr (make_solution foods s')
    | Inl e \<Rightarrow> (\<exists>n<100. \<exists>t'. pivots n (initial_tableau foods cs) = Some t' \<and> pivot_step t' = None)
                \<and> simplexSolve foods cs = Inl e)
   \<and> (ls_iteration s = 100 \<longrightarrow> simplex_loop s = Inr s)
   \<and> ts_iter (simplex_iterate \<lparr>ts_tab = simplex_tab foods cs, ts_iter = 0, ts_iterations = []\<rparr>) \<le> 100"
proof (intro conjI)
  show "case simplex_loop (start_state foods cs) of
      Inr s' \<Rightarrow> ls_iteration s' \<le> 100
                \<and> pivots (ls_iteration s') (initial_tableau foods cs) = Some (ls_tableau s')
                \<and> simplexSolve foods cs = Inr (make_solution foods s')
    | Inl e \<Rightarrow> (\<exists>n<100. \<exists>t'. pivots n (initial_tableau foods cs) = Some t' \<and> pivot_step t' = None)
                \<and> simplexSolve foods cs = Inl e"
  proof (cases "simplex_loop (start_state foods cs)")
    case (Inr s')
    from loop_Inr [OF Inr] have "ls_iteration s' \<le> 100"
      "pivots (ls_iteration s') (initial_tableau foods cs) = Some (ls_tableau s')"
      by (simp_all add: start_state_def maxIterations_def)
    then show ?thesis by (simp add: Inr simplexSolve_def)
  next
    case (Inl e)
    from loop_Inl [OF Inl] obtain n t' c where
      "ls_iteration (start_state foods cs) + n < maxIterations"
      "pivots n (ls_tableau (start_state foods cs)) = Some t'"
      "findPivotColumn t' = Some c" "findPivotRow t' c = None"
      by blast
    then have "n < maxIterations" "pivots n (initial_tableau foods cs) = Some t'"
      "findPivotColumn t' = Some c" "findPivotRow t' c = None"
      by (simp_all add: start_state_def)
    then have "n < 100 \<and> pivots n (initial_tableau foods cs) = Some t' \<and> pivot_step t' = None"
      by (simp add: pivot_step_def maxIterations_def)
    then show ?thesis by (auto simp add: Inl simplexSolve_def)
  qed
next
  show "ls_iteration s = 100 \<longrightarrow> simplex_loop s = Inr s"
    using loop_exit_at_cap [of s] by (simp add: maxIterations_def)
next
  have "ts_iter (simplex_iterate \<lparr>ts_tab = simplex_tab foods cs, ts_iter = 0, ts_iterations = []\<rparr>) \<le> maxIter"
    by (rule iterate_bound) simp
  then show "ts_iter (simplex_iterate \<lparr>ts_tab = simplex_tab foods cs, ts_iter = 0, ts_iterations = []\<rparr>) \<le> 100"
    by (simp add: maxIter_def)
qed

text \<open>
  Witness for C3: an input on which the engine pivots three times, and a state at the cap
  whose objective row still has a negative entry.
\<close>

theorem solve_bounded_witness:
  "\<not> isl (simplex_loop (start_state three_foods three_requirements))
   \<and> ls_iteration (projr (simplex_loop (start_state three_foods three_requirements))) = 3
   \<and> pivots 3 (initial_tableau three_foods three_requirements)
       = Some (ls_tableau (projr (simplex_loop (start_state three_foods three_requirements))))
   \<and> simplexSolve three_foods three_requirements
       = Inr (make_solution three_foods
               (projr (simplex_loop (start_state three_foods three_requirements))))
   \<and> ls_iteration capped_state = 100
   \<and> findPivotColumn (ls_tableau capped_state) = Some 0
   \<and> simplex_loop capped_state = Inr capped_state"
proof -
  have "\<not> isl (simplex_loop (start_state three_foods three_requirements))" by code_simp
  then obtain s' where s': "simplex_loop (start_state three_foods three_requirements) = Inr s'"
    by (cases "simplex_loop (start_state three_foods three_requirements)") auto
  have n: "ls_iteration (projr (simplex_loop (start_state three_foods three_requirements))) = 3"
    by code_simp
  have cap: "ls_iteration capped_state = 100 \<and> findPivotColumn (ls_tableau capped_state) = Some 0"
    by code_simp
  from solve_bounded [of three_foods three_requirements capped_state] s' n cap
  show ?thesis by simp
qed

subsection \<open>C4: no leaving row\<close>

text \<open>
  Claim C4 asks that a valid entering column without a leaving row ends the solve with the
  unbounded failure and without extracting amounts.  The server copy does so (lemma
  \<open>simplexSolve_unbounded\<close>).  The browser copy leaves its loop with \<open>break\<close> and goes on
  to extract: for the single item \<open>free_food\<close> column \<open>0\<close> enters, no row leaves, and the
  solution handed to the page is the amount \<open>0\<close> at total cost \<open>0\<close>, where the server copy
  returns the error.
\<close>

theorem browser_unbounded_extracts:
  "enterCol (simplex_tab [free_food] reference_requirements) = Some 0
   \<and> leaveRow (simplex_tab [free_food] reference_requirements) 0 = None
   \<and> simplex [free_food] reference_requirements = \<lparr>ui_amounts = [0], ui_totalCost = 0\<rparr>
   \<and> simplexSolve [free_food] reference_requirements = Inl Unbounded"
  by code_simp

subsection \<open>C5: the ratio test\<close>

text \<open>
  Claim C5 asks that the ratio test considers exactly the rows whose entry is below
  \<open>-epsilon\<close>.  The server copy does (lemma \<open>findPivotRow_spec\<close>).  The ratio test of the
  browser copy compares with \<open>0\<close>: on the same tableau, whose only entry in column \<open>0\<close> is
  \<open>-1e-7\<close>, it selects row \<open>0\<close> where \<open>findPivotRow\<close> returns none.
\<close>

theorem browser_ratio_test_without_epsilon:
  "simplex_tab [trace_food] trace_requirements
     = matrix (initial_tableau [trace_food] trace_requirements)
   \<and> enterCol (simplex_tab [trace_food] trace_requirements) = Some 0
   \<and> \<not> simplex_tab [trace_food] trace_requirements ! 0 ! 0 < - epsilon
   \<and> leaveRow (simplex_tab [trace_food] trace_requirements) 0 = Some 0
   \<and> findPivotRow (initial_tableau [trace_food] trace_requirements) 0 = None"
  by code_simp

subsection \<open>C6: the pivot column becomes a unit vector\<close>

text \<open>
  Claim C6.  On a tableau of the constructor's shape, \<open>pivot(r, c)\<close> with a pivot element
  not within \<open>epsilon\<close> of \<open>0\<close>, or with \<open>c\<close> and \<open>r\<close> as the two selectors of the engine return
  them, leaves column \<open>c\<close> with \<open>1\<close> in row \<open>r\<close> and \<open>0\<close> in every other row, sets
  \<open>basis[r] = c\<close> and keeps the shape (so the next pivot of the engine meets the same
  conditions; lemma \<open>engine_tableau_wf\<close>: every tableau the engine reaches has the shape).
\<close>

theorem pivot_unit_column:
  assumes wf: "wf_tableau t"
    and pre: "(r < rows t \<and> c < cols t \<and> \<not> \<bar>matrix t ! r ! c\<bar> < epsilon)
              \<or> (findPivotColumn t = Some c \<and> findPivotRow t c = Some r)"
  shows "unit_column (pivot t r c) r c \<and> basis (pivot t r c) ! r = c \<and> wf_tableau (pivot t r c)"
proof -
  have "r < rows t \<and> c < cols t \<and> matrix t ! r ! c \<noteq> 0"
  proof (rule disjE [OF pre])
    assume "r < rows t \<and> c < cols t \<and> \<not> \<bar>matrix t ! r ! c\<bar> < epsilon"
    then show ?thesis using epsilon_pos by auto
  next
    assume "findPivotColumn t = Some c \<and> findPivotRow t c = Some r"
    then have "r < rows t - 1" "c < cols t - 1" "matrix t ! r ! c < - epsilon"
      using selected_pivot by blast+
    then show ?thesis using epsilon_pos by auto
  qed
  moreover have "length (basis t) = rows t" using wf by (simp add: wf_tableau_def)
  ultimately show ?thesis using pivot_unit pivot_basis pivot_wf [OF wf] by simp
qed

text \<open>
  Witness for C6: the first pivot of the engine on \<open>three_foods\<close> (row \<open>3\<close>, column \<open>0\<close>), and
  a pivot on the entry at row \<open>1\<close>, column \<open>1\<close>.
\<close>

theorem pivot_unit_column_witness:
  "wf_tableau (initial_tableau three_foods three_requirements)
   \<and> findPivotColumn (initial_tableau three_foods three_requirements) = Some 0
   \<and> findPivotRow (initial_tableau three_foods three_requirements) 0 = Some 3
   \<and> unit_column (pivot (initial_tableau three_foods three_requirements) 3 0) 3 0
   \<and> basis (pivot (initial_tableau three_foods three_requirements) 3 0) ! 3 = 0
   \<and> \<not> \<bar>matrix (initial_tableau three_foods three_requirements) ! 1 ! 1\<bar> < epsilon
   \<and> unit_column (pivot (initial_tableau three_foods three_requirements) 1 1) 1 1"
proof -
  let ?t = "initial_tableau three_foods three_requirements"
  have wf: "wf_tableau ?t" by code_simp
  have sel: "findPivotColumn ?t = Some 0 \<and> findPivotRow ?t 0 = Some 3" by code_simp
  have pre: "1 < rows ?t \<and> 1 < cols ?t \<and> \<not> \<bar>matrix ?t ! 1 ! 1\<bar> < epsilon" by code_simp
  from pivot_unit_column [OF wf, of 3 0] sel
  have a: "unit_column (pivot ?t 3 0) 3 0 \<and> basis (pivot ?t 3 0) ! 3 = 0" by blast
  from pivot_unit_column [OF wf, of 1 1] pre
  have b: "unit_column (pivot ?t 1 1) 1 1" by blast
  from wf sel pre a b show ?thesis by blast
qed

subsection \<open>C7: what the optimize handler rejects\<close>




subsection \<open>C8: an item with zero cost and no nutrients\<close>




subsection \<open>C9: the sensitivity sweep\<close>

text \<open>
  Claim C9.  \<open>sensitivity\<close> produces one entry for exactly the items whose amount exceeds
  \<open>epsilon\<close>, in item order; its sweep runs over \<open>-50, -40, .., 50\<close> with
  \<open>newCost = unitCost * (1 + pct / 100)\<close> and \<open>costImpact = amount * (newCost - unitCost)\<close>;
  the impact at \<open>pct = 0\<close> is \<open>0\<close>.
\<close>

theorem sensitivity_sweep:
  "sensitivity amts foods =
     map (\<lambda>idx. \<lparr>sens_food = name (foods ! idx), currentPrice = cost (foods ! idx),
                  quantity = amts ! idx,
                  analysis = map (sweep_at (cost (foods ! idx)) (amts ! idx)) pcts\<rparr>)
         (filter (used amts) [0..<length foods])
   \<and> (\<forall>e \<in> set (sensitivity amts foods). \<forall>w \<in> set (analysis e).
         priceChange w = 0 \<longrightarrow> impactOnTotal w = 0)"
proof -
  have closed: "sensitivity amts foods =
     map (\<lambda>idx. \<lparr>sens_food = name (foods ! idx), currentPrice = cost (foods ! idx),
                  quantity = amts ! idx,
                  analysis = map (sweep_at (cost (foods ! idx)) (amts ! idx)) pcts\<rparr>)
         (filter (used amts) [0..<length foods])"
    by (simp add: sensitivity_def sens_fold)
  have "\<forall>e \<in> set (sensitivity amts foods). \<forall>w \<in> set (analysis e).
         priceChange w = 0 \<longrightarrow> impactOnTotal w = 0"
    unfolding closed by (auto simp add: sweep_at_def)
  with closed show ?thesis by blast
qed

text \<open>
  Witness for C9: two items of which the first is used.
\<close>

theorem sensitivity_sweep_witness:
  "length (sensitivity [2, 0] cheap_foods) = 1
   \<and> map priceChange (analysis (sensitivity [2, 0] cheap_foods ! 0)) = pcts
   \<and> priceChange (analysis (sensitivity [2, 0] cheap_foods ! 0) ! 5) = 0
   \<and> impactOnTotal (analysis (sensitivity [2, 0] cheap_foods ! 0) ! 5) = 0
   \<and> impactOnTotal (analysis (sensitivity [2, 0] cheap_foods ! 0) ! 6) = - (1 / 5)"
proof -
  let ?e = "sensitivity [2, 0] cheap_foods ! 0"
  have facts: "length (sensitivity [2, 0] cheap_foods) = 1
     \<and> map priceChange (analysis ?e) = pcts
     \<and> priceChange (analysis ?e ! 5) = 0
     \<and> length (analysis ?e) = 11
     \<and> impactOnTotal (analysis ?e ! 6) = - (1 / 5)"
    by code_simp
  then have "?e \<in> set (sensitivity [2, 0] cheap_foods)" "analysis ?e ! 5 \<in> set (analysis ?e)"
    by simp_all
  with sensitivity_sweep [of "[2, 0]" cheap_foods] facts
  have "impactOnTotal (analysis ?e ! 5) = 0" by blast
  with facts show ?thesis by simp
qed

subsection \<open>C10: the feasible flag\<close>

text \<open>
  Claim C10.  Whatever \<open>simplexSolve\<close> returns is either the unbounded error or a solution
  whose \<open>feasible\<close> field is true; a loop state that has used up the cap is returned as it
  is and the solution made from it is flagged feasible as well.
\<close>

theorem feasible_always_true:
  "(case simplexSolve foods cs of Inr sol \<Rightarrow> feasible sol | Inl e \<Rightarrow> e = Unbounded)
   \<and> (ls_iteration s = maxIterations \<longrightarrow>
        simplex_loop s = Inr s \<and> feasible (make_solution fs s))"
proof -
  have "case simplexSolve foods cs of Inr sol \<Rightarrow> feasible sol | Inl e \<Rightarrow> e = Unbounded"
    by (cases "simplex_loop (start_state foods cs)")
       (auto simp add: simplexSolve_def make_solution_def Let_def intro: error.exhaust)
  moreover have "ls_iteration s = maxIterations \<longrightarrow> simplex_loop s = Inr s"
    using loop_exit_at_cap [of s] by simp
  ultimately show ?thesis by (simp add: make_solution_def Let_def)
qed

text \<open>
  Witness for C10: the reference input, flagged feasible with no carbohydrates delivered,
  and a state at the cap whose objective row still has a negative entry.
\<close>

theorem feasible_always_true_witness:
  "\<not> isl (simplexSolve reference_foods reference_requirements)
   \<and> feasible (projr (simplexSolve reference_foods reference_requirements))
   \<and> delivered reference_foods (amounts (projr (simplexSolve reference_foods reference_requirements)))
        Carbs < min_carbs reference_requirements - epsilon
   \<and> ls_iteration capped_state = maxIterations
   \<and> findPivotColumn (ls_tableau capped_state) = Some 0
   \<and> simplex_loop capped_state = Inr capped_state
   \<and> feasible (make_solution three_foods capped_state)"
proof -
  have "\<not> isl (simplexSolve reference_foods reference_requirements)" by code_simp
  then obtain sol where sol: "simplexSolve reference_foods reference_requirements = Inr sol"
    by (cases "simplexSolve reference_foods reference_requirements") auto
  have d: "delivered reference_foods (amounts (projr (simplexSolve reference_foods reference_requirements)))
        Carbs < min_carbs reference_requirements - epsilon"
    by code_simp
  have cap: "ls_iteration capped_state = maxIterations
       \<and> findPivotColumn (ls_tableau capped_state) = Some 0"
    by code_simp
  from feasible_always_true [of reference_foods reference_requirements capped_state three_foods]
    sol d cap
  show ?thesis by simp
qed

end
